theory Spec2Isabelle
  imports Complex_Main "HOL-Library.Sublist" "HOL-Library.AList"
begin

section \<open>Local cluster composition (distributed/deploy/local.py)\<close>

text \<open>
  The module computes the topology of a local cluster: how many worker processes to
  start, how many threads each runs, which protocol and host the scheduler binds to,
  and the scheduler and worker specifications handed to the base class
  \<open>SpecCluster\<close>. Python integers are modelled by \<open>int\<close>, strings by \<open>string\<close>,
  a raised exception by the left injection of a sum type.
\<close>

subsection \<open>Exceptions\<close>

datatype py_error = ZeroDivisionError | ValueError | TypeError

definition py_floordiv :: "int \<Rightarrow> int \<Rightarrow> py_error + int" where
  \<comment> \<open>\<open>a // b\<close>: floor division, raising on a zero divisor\<close>
  "py_floordiv a b = (if b = 0 then Inl ZeroDivisionError else Inr (a div b))"

fun py_min :: "int list \<Rightarrow> py_error + int" where
  \<comment> \<open>\<open>min(iterable)\<close>: raises \<open>ValueError\<close> on an empty iterable\<close>
  "py_min [] = Inl ValueError"
| "py_min (x # xs) = Inr (fold min xs x)"

subsection \<open>Resource partitioner: \<open>nprocesses_nthreads\<close>\<close>

text \<open>
  Modelled from the spec: \<open>factors\<close> is imported from \<open>dask.utils\<close> and is not part of
  the module. The specification describes it as the integer factors of \<open>n\<close>, among
  which \<open>n\<close> itself; it is modelled as the list of positive divisors of \<open>n\<close>.
\<close>

definition factors :: "int \<Rightarrow> int list" where
  "factors n = filter (\<lambda>f. n mod f = 0) [1..n]"

text \<open>
  The test \<open>f >= math.sqrt(n)\<close> compares an integer with a floating-point square root.
  For a non-negative integer \<open>f\<close> it holds exactly when \<open>n \<le> f * f\<close>; the
  floating-point comparison agrees with this for every core count below \<open>2^52\<close>,
  where the rounded root of a non-square never reaches the next integer.
\<close>

definition ge_sqrt :: "int \<Rightarrow> int \<Rightarrow> bool" where
  "ge_sqrt f n = (0 \<le> f \<and> n \<le> f * f)"

definition nprocesses_nthreads :: "int \<Rightarrow> py_error + (int \<times> int)" where
  "nprocesses_nthreads n =
     (case (if n \<le> 4 then Inr n else py_min (filter (\<lambda>f. ge_sqrt f n) (factors n))) of
        Inl e \<Rightarrow> Inl e
      | Inr processes \<Rightarrow>
          (case py_floordiv n processes of
             Inl e \<Rightarrow> Inl e
           | Inr threads \<Rightarrow> Inr (processes, threads)))"

subsection \<open>Python values handed through to the collaborators\<close>

text \<open>
  Keyword arguments the constructor only forwards are values of \<open>'v pyval\<close>; the type
  \<open>'v\<close> stands for objects supplied by the caller (a security context, a service, an
  event loop, a user-defined worker class).
\<close>

datatype 'v pyval =
    PNone
  | PBool bool
  | PInt int
  | PStr string
  | PDict "(string \<times> 'v) list"
  | PList "'v list"
  | PObj 'v

fun truthy :: "'v pyval \<Rightarrow> bool" where
  "truthy PNone = False"
| "truthy (PBool b) = b"
| "truthy (PInt i) = (i \<noteq> 0)"
| "truthy (PStr s) = (s \<noteq> [])"
| "truthy (PDict d) = (d \<noteq> [])"
| "truthy (PList l) = (l \<noteq> [])"
| "truthy (PObj x) = True"

definition of_str :: "string option \<Rightarrow> 'v pyval" where
  "of_str s = (case s of None \<Rightarrow> PNone | Some x \<Rightarrow> PStr x)"

definition of_int_opt :: "int option \<Rightarrow> 'v pyval" where
  "of_int_opt i = (case i of None \<Rightarrow> PNone | Some x \<Rightarrow> PInt x)"

definition of_obj :: "'v option \<Rightarrow> 'v pyval" where
  "of_obj x = (case x of None \<Rightarrow> PNone | Some y \<Rightarrow> PObj y)"

definition py_or :: "'v pyval \<Rightarrow> 'v pyval \<Rightarrow> 'v pyval" where
  \<comment> \<open>\<open>a or b\<close>\<close>
  "py_or a b = (if truthy a then a else b)"

subsection \<open>String operations\<close>

fun py_in :: "string \<Rightarrow> string \<Rightarrow> bool" where
  \<comment> \<open>\<open>sep in s\<close>: \<open>sep\<close> occurs in \<open>s\<close> as a substring\<close>
  "py_in sep [] = (sep = [])"
| "py_in sep (c # cs) = (prefix sep (c # cs) \<or> py_in sep cs)"

fun split_first :: "string \<Rightarrow> string \<Rightarrow> string" where
  \<comment> \<open>\<open>s.split(sep)[0]\<close> for a non-empty \<open>sep\<close>: the text before its first occurrence,
      all of \<open>s\<close> when there is none\<close>
  "split_first sep [] = []"
| "split_first sep (c # cs) = (if prefix sep (c # cs) then [] else c # split_first sep cs)"

definition endswith :: "string \<Rightarrow> string \<Rightarrow> bool" where
  "endswith s x = suffix x s"

definition startswith :: "string \<Rightarrow> string \<Rightarrow> bool" where
  "startswith s x = prefix x s"

definition str_truthy :: "string option \<Rightarrow> bool" where
  \<comment> \<open>truth value of a string or \<open>None\<close>\<close>
  "str_truthy s = (case s of None \<Rightarrow> False | Some x \<Rightarrow> x \<noteq> [])"

subsection \<open>The construction request\<close>

datatype 'v py_class = Scheduler | Worker | Nanny | UserClass 'v

record 'v request =
  n_workers :: "int option"
  threads_per_worker :: "int option"
  processes :: bool
  loop :: "'v pyval"
  start :: "'v pyval"
  host :: "string option"
  ip :: "string option"
  scheduler_port :: int
  silence_logs :: "'v pyval"
  dashboard_address :: "'v pyval"
  worker_dashboard_address :: "'v pyval"
  diagnostics_port :: "'v pyval"
  services :: "'v pyval"
  worker_services :: "'v pyval"
  service_kwargs :: "'v pyval"
  asynchronous :: bool
  security :: "'v option"
  protocol :: "string option"
  blocked_handlers :: "'v pyval"
  interface :: "string option"
  worker_class :: "'v py_class option"
  proxy_address :: "'v pyval"
  proxy_port :: "'v pyval"
  redis_endpoints :: "'v pyval"
  num_lambda_invokers :: "'v pyval"
  max_task_fanout :: "'v pyval"
  chunk_large_tasks :: "'v pyval"
  chunk_task_threshold :: "'v pyval"
  num_chunks_for_large_tasks :: "'v pyval"
  worker_kwargs :: "(string \<times> 'v pyval) list"

text \<open>The defaults of the signature of \<open>LocalCluster.__init__\<close>; \<open>logging.WARN\<close> is 30.\<close>

definition default_request :: "'v request" where
  "default_request =
     \<lparr>n_workers = None, threads_per_worker = None, processes = True, loop = PNone,
      start = PNone, host = None, ip = None, scheduler_port = 0, silence_logs = PInt 30,
      dashboard_address = PStr '':8787'', worker_dashboard_address = PNone,
      diagnostics_port = PNone, services = PNone, worker_services = PNone,
      service_kwargs = PNone, asynchronous = False, security = None, protocol = None,
      blocked_handlers = PNone, interface = None, worker_class = None,
      proxy_address = PNone, proxy_port = PNone, redis_endpoints = PList [],
      num_lambda_invokers = PInt 16, max_task_fanout = PInt 10,
      chunk_large_tasks = PBool False, chunk_task_threshold = PInt 50,
      num_chunks_for_large_tasks = PNone, worker_kwargs = []\<rparr>"

subsection \<open>Deprecated aliases (lines 125 to 134)\<close>

definition alias_host :: "'v request \<Rightarrow> string option" where
  \<comment> \<open>\<open>if ip is not None: host = ip\<close>\<close>
  "alias_host req = (case ip req of Some i \<Rightarrow> Some i | None \<Rightarrow> host req)"

definition alias_dashboard_address :: "'v request \<Rightarrow> 'v pyval" where
  \<comment> \<open>\<open>if diagnostics_port is not None: dashboard_address = diagnostics_port\<close>\<close>
  "alias_dashboard_address req =
     (if diagnostics_port req \<noteq> PNone then diagnostics_port req else dashboard_address req)"

subsection \<open>Protocol and host (lines 139 to 152)\<close>

definition default_protocol :: "'v request \<Rightarrow> string" where
  \<comment> \<open>the body of \<open>if protocol is None\<close>, on the host left by the \<open>ip\<close> alias\<close>
  "default_protocol req =
     (let host' = alias_host req in
      if str_truthy host' \<and> py_in ''://'' (case host' of Some h \<Rightarrow> h | None \<Rightarrow> [])
      then split_first ''://'' (case host' of Some h \<Rightarrow> h | None \<Rightarrow> [])
      else if security req \<noteq> None then ''tls://''
      else if \<not> processes req \<and> scheduler_port req = 0 then ''inproc://''
      else ''tcp://'')"

definition with_separator :: "string \<Rightarrow> string" where
  \<comment> \<open>\<open>if not protocol.endswith("://"): protocol = protocol + "://"\<close>\<close>
  "with_separator p = (if \<not> endswith p ''://'' then p @ ''://'' else p)"

definition resolve_protocol :: "'v request \<Rightarrow> string" where
  "resolve_protocol req =
     with_separator (case protocol req of Some p \<Rightarrow> p | None \<Rightarrow> default_protocol req)"

definition resolve_host :: "'v request \<Rightarrow> string option" where
  "resolve_host req =
     (let host' = alias_host req in
      if host' = None \<and> \<not> startswith (resolve_protocol req) ''inproc''
           \<and> \<not> str_truthy (interface req)
      then Some ''127.0.0.1''
      else host')"

subsection \<open>Worker and thread counts (lines 156 to 166)\<close>

text \<open>
  \<open>ncores\<close> stands for \<open>_ncores\<close>, the number of cores, which the module imports from
  the worker module. \<open>math.ceil(_ncores / n_workers)\<close> divides in floating point.
  \<open>py_ceil_div\<close> is the integer ceiling \<open>- ((- ncores) div n_workers)\<close>, which is the
  value the floating-point expression has for a core count below \<open>2^52\<close> and a positive
  worker count; from \<open>2^53 + 1\<close> cores on the rounded quotient can be smaller. Every
  statement below about the value of the derived thread count therefore assumes
  \<open>ncores < 2^52\<close>.
\<close>

definition py_ceil_div :: "int \<Rightarrow> int \<Rightarrow> int" where
  "py_ceil_div a b = - ((- a) div b)"

definition resolve_counts :: "int \<Rightarrow> 'v request \<Rightarrow> py_error + (int option \<times> int option)" where
  "resolve_counts ncores req =
     (case
        (if n_workers req = None \<and> threads_per_worker req = None then
           if processes req then
             (case nprocesses_nthreads ncores of
                Inl e \<Rightarrow> Inl e
              | Inr (p, t) \<Rightarrow> Inr (Some p, Some t))
           else Inr (Some 1, Some ncores)
         else Inr (n_workers req, threads_per_worker req))
      of
        Inl e \<Rightarrow> Inl e
      | Inr (nw, tpw) \<Rightarrow>
          (case
             (case (nw, tpw) of
                (None, Some t) \<Rightarrow>
                  (case py_floordiv ncores t of
                     Inl e \<Rightarrow> Inl e
                   | Inr q \<Rightarrow> Inr (Some (max 1 q)))
              | _ \<Rightarrow> Inr nw)
           of
             Inl e \<Rightarrow> Inl e
           | Inr nw' \<Rightarrow>
               Inr (nw',
                    (case (nw', tpw) of
                       (Some n, None) \<Rightarrow>
                         if n \<noteq> 0 then Some (max 1 (py_ceil_div ncores n)) else None
                     | _ \<Rightarrow> tpw))))"

subsection \<open>Worker options (lines 167 to 180)\<close>

text \<open>
  A dictionary with string keys is an association list in insertion order;
  \<open>AList.update\<close> overwrites the value of a key that is present and appends a new key,
  as an assignment to a Python dictionary does. \<open>parse_memory_limit\<close> is imported
  from the worker module and is a parameter of the model.
\<close>

definition dict_update :: "(string \<times> 'a) list \<Rightarrow> (string \<times> 'a) list \<Rightarrow> (string \<times> 'a) list" where
  \<comment> \<open>\<open>d.update(new)\<close>\<close>
  "dict_update d new = fold (\<lambda>(k, v). AList.update k v) new d"

definition with_memory_limit ::
  "(string \<Rightarrow> int \<Rightarrow> int \<Rightarrow> int) \<Rightarrow> int option \<Rightarrow> (string \<times> 'v pyval) list
     \<Rightarrow> (string \<times> 'v pyval) list" where
  "with_memory_limit parse_memory_limit nw kwargs =
     (case nw of
        None \<Rightarrow> kwargs
      | Some n \<Rightarrow>
          if n \<noteq> 0 \<and> map_of kwargs ''memory_limit'' = None
          then AList.update ''memory_limit'' (PInt (parse_memory_limit ''auto'' 1 n)) kwargs
          else kwargs)"

definition worker_options ::
  "'v request \<Rightarrow> int option \<Rightarrow> (string \<times> 'v pyval) list \<Rightarrow> (string \<times> 'v pyval) list" where
  "worker_options req tpw kwargs =
     dict_update kwargs
       [(''ncores'', of_int_opt tpw),
        (''services'', py_or (worker_services req) (PDict [])),
        (''dashboard_address'', worker_dashboard_address req),
        (''interface'', of_str (interface req)),
        (''protocol'', PStr (resolve_protocol req)),
        (''security'', of_obj (security req)),
        (''silence_logs'', silence_logs req)]"

subsection \<open>Scheduler and worker specifications (lines 182 to 210)\<close>

record 'v component_spec =
  cls :: "'v py_class"
  options :: "(string \<times> 'v pyval) list"

definition scheduler_spec :: "'v request \<Rightarrow> 'v component_spec" where
  "scheduler_spec req =
     \<lparr>cls = Scheduler,
      options =
        [(''host'', of_str (resolve_host req)),
         (''services'', py_or (services req) (PDict [])),
         (''service_kwargs'', service_kwargs req),
         (''security'', of_obj (security req)),
         (''port'', PInt (scheduler_port req)),
         (''interface'', of_str (interface req)),
         (''protocol'', PStr (resolve_protocol req)),
         (''dashboard_address'', alias_dashboard_address req),
         (''blocked_handlers'', blocked_handlers req),
         (''proxy_address'', proxy_address req),
         (''proxy_port'', proxy_port req),
         (''redis_endpoints'', redis_endpoints req),
         (''num_lambda_invokers'', num_lambda_invokers req),
         (''chunk_large_tasks'', chunk_large_tasks req),
         (''chunk_task_threshold'', chunk_task_threshold req),
         (''max_task_fanout'', max_task_fanout req),
         (''num_chunks_for_large_tasks'', num_chunks_for_large_tasks req)]\<rparr>"

definition worker_cls :: "'v request \<Rightarrow> 'v py_class" where
  \<comment> \<open>\<open>worker_class or (Worker if not processes else Nanny)\<close>; a class is a true value\<close>
  "worker_cls req =
     (case worker_class req of
        Some c \<Rightarrow> c
      | None \<Rightarrow> if \<not> processes req then Worker else Nanny)"

definition worker_spec ::
  "(string \<Rightarrow> int \<Rightarrow> int \<Rightarrow> int) \<Rightarrow> 'v request \<Rightarrow> int option \<Rightarrow> int option
     \<Rightarrow> 'v component_spec" where
  "worker_spec parse_memory_limit req nw tpw =
     \<lparr>cls = worker_cls req,
      options = worker_options req tpw (with_memory_limit parse_memory_limit nw (worker_kwargs req))\<rparr>"

definition py_range :: "int \<Rightarrow> int list" where
  \<comment> \<open>\<open>range(n)\<close>: empty when \<open>n \<le> 0\<close>\<close>
  "py_range n = [0..n - 1]"

definition worker_slots :: "int option \<Rightarrow> 'a \<Rightarrow> py_error + (int \<times> 'a) list" where
  \<comment> \<open>\<open>{i: worker for i in range(n_workers)}\<close>; \<open>range(None)\<close> raises\<close>
  "worker_slots nw worker =
     (case nw of
        None \<Rightarrow> Inl TypeError
      | Some n \<Rightarrow> Inr (map (\<lambda>i. (i, worker)) (py_range n)))"

subsection \<open>The cluster handle and the registry (lines 212 to 221 and 251)\<close>

text \<open>
  Modelled from the spec: the base class \<open>SpecCluster\<close> (module \<open>.spec\<close>), whose
  constructor and \<open>scale\<close> method the module calls, is not part of the module. The
  specification describes it as the bootstrapping collaborator that receives the
  scheduler specification, the per-slot worker specifications and the scaling target
  and returns the cluster handle. The handle is modelled as a record of what the
  collaborator receives, next to the two attributes the constructor sets itself.
\<close>

record 'v local_cluster =
  status :: "'v pyval"
  cluster_processes :: bool
  scheduler :: "'v component_spec"
  workers :: "(int \<times> 'v component_spec) list"
  worker :: "'v component_spec"
  cluster_loop :: "'v pyval"
  cluster_asynchronous :: bool
  cluster_silence_logs :: "'v pyval"
  scaled_to :: int

text \<open>
  The module state is the registry \<open>clusters_to_close\<close>: the handles that are members
  of the weak set, in the order in which \<open>list(clusters_to_close)\<close> yields them. The
  statements of the constructor do not mention the registry, so the constructor hands
  the state through. What the base class does when it is called lies outside the
  module; nothing is proved here about which handles it registers.
\<close>

record 'h module_state =
  clusters_to_close :: "'h list"

definition LocalCluster_init ::
  "int \<Rightarrow> (string \<Rightarrow> int \<Rightarrow> int \<Rightarrow> int) \<Rightarrow> 'v request \<Rightarrow> 'v local_cluster module_state
     \<Rightarrow> py_error + ('v local_cluster \<times> 'v local_cluster module_state)" where
  "LocalCluster_init ncores parse_memory_limit req st =
     (case resolve_counts ncores req of
        Inl e \<Rightarrow> Inl e
      | Inr (nw, tpw) \<Rightarrow>
          (let w = worker_spec parse_memory_limit req nw tpw in
           case worker_slots nw w of
             Inl e \<Rightarrow> Inl e
           | Inr ws \<Rightarrow>
               Inr (\<lparr>status = PNone,
                     cluster_processes = processes req,
                     scheduler = scheduler_spec req,
                     workers = ws,
                     worker = w,
                     cluster_loop = loop req,
                     cluster_asynchronous = asynchronous req,
                     cluster_silence_logs = silence_logs req,
                     scaled_to = (case nw of Some n \<Rightarrow> n | None \<Rightarrow> 0)\<rparr>,
                    st)))"

subsection \<open>The exit hook \<open>close_clusters\<close> (lines 254 to 257)\<close>

text \<open>
  \<open>cluster.close(timeout=10)\<close> is a method of the handle; \<open>close h timeout\<close> is
  \<open>None\<close> when the call returns and \<open>Some e\<close> when it raises \<open>e\<close>. The loop has no
  exception handler. The result is the list of handles whose \<open>close\<close> was called, in
  order, and the exception that left the function, if any.
\<close>

fun close_each :: "('h \<Rightarrow> int \<Rightarrow> 'e option) \<Rightarrow> 'h list \<Rightarrow> 'h list \<times> 'e option" where
  "close_each close [] = ([], None)"
| "close_each close (c # cs) =
     (case close c 10 of
        Some e \<Rightarrow> ([c], Some e)
      | None \<Rightarrow> (case close_each close cs of (attempted, r) \<Rightarrow> (c # attempted, r)))"

definition close_clusters :: "('h \<Rightarrow> int \<Rightarrow> 'e option) \<Rightarrow> 'h module_state \<Rightarrow> 'h list \<times> 'e option" where
  "close_clusters close st = close_each close (clusters_to_close st)"

text \<open>
  A population of handles for running the exit hook: handles are numbered, and the
  \<open>close\<close> of handle \<open>k\<close> raises while every other \<open>close\<close> returns.
\<close>

definition close_raising_at :: "nat \<Rightarrow> nat \<Rightarrow> int \<Rightarrow> string option" where
  "close_raising_at k h timeout = (if h = k then Some ''close failed'' else None)"

section \<open>Properties of the partitioner\<close>

lemma py_min_Min: "xs \<noteq> [] \<Longrightarrow> py_min xs = Inr (Min (set xs))"
  by (cases xs) (simp_all add: Min.set_eq_fold [symmetric])

lemma ge_sqrt_iff:
  assumes "0 \<le> n"
  shows "ge_sqrt f n \<longleftrightarrow> sqrt (real_of_int n) \<le> real_of_int f"
proof (cases "0 \<le> f")
  case True
  have "sqrt (real_of_int n) \<le> real_of_int f
          \<longleftrightarrow> sqrt (real_of_int n) \<le> sqrt (real_of_int (f * f))"
    using True by simp
  also have "\<dots> \<longleftrightarrow> real_of_int n \<le> real_of_int (f * f)"
    by (rule real_sqrt_le_iff)
  also have "\<dots> \<longleftrightarrow> n \<le> f * f"
    by (rule of_int_le_iff)
  finally show ?thesis
    using True by (simp add: ge_sqrt_def)
next
  case False
  have "0 \<le> sqrt (real_of_int n)"
    using assms by simp
  moreover have "real_of_int f < 0"
    using False by simp
  ultimately have "\<not> sqrt (real_of_int n) \<le> real_of_int f"
    by linarith
  with False show ?thesis
    by (simp add: ge_sqrt_def)
qed

lemma set_candidates:
  "set (filter (\<lambda>f. ge_sqrt f n) (factors n)) = {f. 1 \<le> f \<and> f \<le> n \<and> f dvd n \<and> n \<le> f * f}"
  by (auto simp: factors_def ge_sqrt_def dvd_eq_mod_eq_0)

lemma nprocesses_nthreads_small:
  "n \<le> 4 \<Longrightarrow> n \<noteq> 0 \<Longrightarrow> nprocesses_nthreads n = Inr (n, 1)"
  by (simp add: nprocesses_nthreads_def py_floordiv_def)

lemma nprocesses_nthreads_large:
  assumes "4 < n"
  shows "nprocesses_nthreads n =
           Inr (Min {f. 1 \<le> f \<and> f \<le> n \<and> f dvd n \<and> n \<le> f * f},
                n div Min {f. 1 \<le> f \<and> f \<le> n \<and> f dvd n \<and> n \<le> f * f})"
proof -
  let ?C = "{f. 1 \<le> f \<and> f \<le> n \<and> f dvd n \<and> n \<le> f * f}"
  have fin: "finite ?C"
    by (rule finite_subset [of _ "{1..n}"]) auto
  have "n \<le> n * n"
    using assms by (simp add: mult_le_cancel_left1)
  then have mem: "n \<in> ?C"
    using assms by simp
  then have ne: "filter (\<lambda>f. ge_sqrt f n) (factors n) \<noteq> []"
    unfolding set_candidates [symmetric] by (metis empty_iff empty_set)
  have "?C \<noteq> {}"
    using mem by blast
  with fin have "Min ?C \<in> ?C"
    by (rule Min_in)
  then have nz: "Min ?C \<noteq> 0"
    by auto
  have pm: "py_min (filter (\<lambda>f. ge_sqrt f n) (factors n)) = Inr (Min ?C)"
    using py_min_Min [OF ne] by (simp only: set_candidates)
  show ?thesis
    using assms nz by (simp add: nprocesses_nthreads_def pm py_floordiv_def)
qed

lemma nprocesses_nthreads_1: "nprocesses_nthreads 1 = Inr (1, 1)"
  by (simp add: nprocesses_nthreads_def py_floordiv_def)

lemma nprocesses_nthreads_4: "nprocesses_nthreads 4 = Inr (4, 1)"
  by (simp add: nprocesses_nthreads_def py_floordiv_def)

lemma nprocesses_nthreads_12: "nprocesses_nthreads 12 = Inr (4, 3)"
  by code_simp

lemma nprocesses_nthreads_32: "nprocesses_nthreads 32 = Inr (8, 4)"
  by code_simp

text \<open>
  Claim C1. For every positive core count \<open>n\<close> the partitioner returns a pair
  \<open>(p, t)\<close> with \<open>p * t = n\<close>, \<open>p \<ge> 1\<close> and \<open>t \<ge> 1\<close>. For \<open>n \<le> 4\<close> the pair is
  \<open>(n, 1)\<close>; for \<open>n > 4\<close>, \<open>p\<close> is the smallest factor of \<open>n\<close> that is at least the
  square root of \<open>n\<close>, and \<open>t = n div p\<close>. The partitions of 1, 4 and 32 are \<open>(1, 1)\<close>,
  \<open>(4, 1)\<close> and \<open>(8, 4)\<close>.
\<close>

theorem nprocesses_nthreads_partition:
  assumes "1 \<le> n"
  shows "(\<exists>p t. nprocesses_nthreads n = Inr (p, t) \<and> p * t = n \<and> 1 \<le> p \<and> 1 \<le> t
            \<and> (n \<le> 4 \<longrightarrow> p = n \<and> t = 1)
            \<and> (4 < n \<longrightarrow> p dvd n \<and> sqrt (real_of_int n) \<le> real_of_int p
                  \<and> (\<forall>f. 1 \<le> f \<and> f dvd n \<and> sqrt (real_of_int n) \<le> real_of_int f \<longrightarrow> p \<le> f)
                  \<and> t = n div p))
         \<and> nprocesses_nthreads 1 = Inr (1, 1)
         \<and> nprocesses_nthreads 4 = Inr (4, 1)
         \<and> nprocesses_nthreads 32 = Inr (8, 4)"
proof -
  have main: "\<exists>p t. nprocesses_nthreads n = Inr (p, t) \<and> p * t = n \<and> 1 \<le> p \<and> 1 \<le> t
            \<and> (n \<le> 4 \<longrightarrow> p = n \<and> t = 1)
            \<and> (4 < n \<longrightarrow> p dvd n \<and> sqrt (real_of_int n) \<le> real_of_int p
                  \<and> (\<forall>f. 1 \<le> f \<and> f dvd n \<and> sqrt (real_of_int n) \<le> real_of_int f \<longrightarrow> p \<le> f)
                  \<and> t = n div p)"
  proof (cases "n \<le> 4")
    case True
    with assms have "nprocesses_nthreads n = Inr (n, 1)"
      by (intro nprocesses_nthreads_small) auto
    with True assms show ?thesis
      by simp
  next
    case False
    then have big: "4 < n"
      by simp
    let ?C = "{f. 1 \<le> f \<and> f \<le> n \<and> f dvd n \<and> n \<le> f * f}"
    let ?p = "Min ?C"
    have fin: "finite ?C"
      by (rule finite_subset [of _ "{1..n}"]) auto
    have "n \<le> n * n"
      using big by (simp add: mult_le_cancel_left1)
    then have "n \<in> ?C"
      using big by simp
    then have "?C \<noteq> {}"
      by blast
    with fin have "?p \<in> ?C"
      by (rule Min_in)
    then have p1: "1 \<le> ?p" and pn: "?p \<le> n" and pd: "?p dvd n" and pq: "n \<le> ?p * ?p"
      by auto
    have prod: "?p * (n div ?p) = n"
      using pd by simp
    have "0 < n div ?p"
      using p1 pn pos_imp_zdiv_pos_iff [of ?p n] by simp
    then have t1: "1 \<le> n div ?p"
      by simp
    have root: "sqrt (real_of_int n) \<le> real_of_int ?p"
      using ge_sqrt_iff [of n ?p] assms p1 pq by (simp add: ge_sqrt_def)
    have least: "?p \<le> f" if "1 \<le> f" "f dvd n" "sqrt (real_of_int n) \<le> real_of_int f" for f
    proof -
      have "n \<le> f * f"
        using ge_sqrt_iff [of n f] assms that by (simp add: ge_sqrt_def)
      moreover have "f \<le> n"
        using that assms by (intro zdvd_imp_le) auto
      ultimately have "f \<in> ?C"
        using that by simp
      with fin show ?thesis
        by (rule Min_le)
    qed
    show ?thesis
      using big p1 t1 prod pd root least
      by (intro exI [of _ ?p] exI [of _ "n div ?p"])
         (simp add: nprocesses_nthreads_large)
  qed
  show ?thesis
    using main nprocesses_nthreads_1 nprocesses_nthreads_4 nprocesses_nthreads_32
    by blast
qed

theorem nprocesses_nthreads_partition_witness:
  "(1::int) \<le> 12 \<and> nprocesses_nthreads 12 = Inr (4, 3) \<and> nprocesses_nthreads 32 = Inr (8, 4)"
  using nprocesses_nthreads_partition [of 12]
  by (simp add: nprocesses_nthreads_12)

section \<open>Protocol and host resolution\<close>

lemma split_first_prefix: "prefix (split_first sep s) s"
  by (induction s) auto

lemma py_in_iff: "py_in sep s \<longleftrightarrow> (\<exists>a b. s = a @ sep @ b)"
proof (induction s)
  case Nil
  then show ?case by auto
next
  case (Cons c cs)
  show ?case
  proof
    assume "py_in sep (c # cs)"
    then consider "prefix sep (c # cs)" | "py_in sep cs" by auto
    then show "\<exists>a b. c # cs = a @ sep @ b"
    proof cases
      case 1
      then obtain b where "c # cs = sep @ b" by (auto simp: prefix_def)
      then have "c # cs = [] @ sep @ b" by simp
      then show ?thesis by blast
    next
      case 2
      with Cons obtain a b where "cs = a @ sep @ b" by blast
      then have "c # cs = (c # a) @ sep @ b" by simp
      then show ?thesis by blast
    qed
  next
    assume "\<exists>a b. c # cs = a @ sep @ b"
    then obtain a b where ab: "c # cs = a @ sep @ b" by blast
    show "py_in sep (c # cs)"
    proof (cases a)
      case Nil
      with ab have "prefix sep (c # cs)" by (simp add: prefix_def)
      then show ?thesis by simp
    next
      case (Cons x xs)
      with ab have "cs = xs @ sep @ b" by simp
      with Cons.IH have "py_in sep cs" by blast
      then show ?thesis by simp
    qed
  qed
qed

lemma split_first_no_sep: "sep \<noteq> [] \<Longrightarrow> \<not> py_in sep (split_first sep s)"
proof (induction s)
  case Nil
  then show ?case by simp
next
  case (Cons c cs)
  show ?case
  proof (cases "prefix sep (c # cs)")
    case True
    with Cons.prems show ?thesis by simp
  next
    case False
    have "prefix (c # split_first sep cs) (c # cs)"
      by (simp add: split_first_prefix)
    with False have "\<not> prefix sep (c # split_first sep cs)"
      using prefix_order.trans by blast
    with False Cons show ?thesis by simp
  qed
qed

lemma split_first_not_endswith: "sep \<noteq> [] \<Longrightarrow> \<not> endswith (split_first sep s) sep"
proof
  assume ne: "sep \<noteq> []" and "endswith (split_first sep s) sep"
  then obtain a where "split_first sep s = a @ sep"
    by (auto simp: endswith_def suffix_def)
  then have "split_first sep s = a @ sep @ []" by simp
  then have "py_in sep (split_first sep s)"
    unfolding py_in_iff by blast
  with split_first_no_sep [OF ne] show False by blast
qed

lemma split_first_decomp: "py_in sep s \<Longrightarrow> \<exists>rest. s = split_first sep s @ sep @ rest"
  by (induction s) (auto simp: prefix_def)


lemma py_in_sublist: "py_in sep s \<longleftrightarrow> sublist sep s"
  by (simp add: py_in_iff sublist_def)

lemma with_separator_endswith: "endswith (with_separator p) ''://''"
  by (auto simp: with_separator_def endswith_def intro: suffixI)

lemma with_separator_fixed:
  "with_separator ''tls://'' = ''tls://''"
  "with_separator ''inproc://'' = ''inproc://''"
  "with_separator ''tcp://'' = ''tcp://''"
  by (simp_all add: with_separator_def endswith_def suffix_to_prefix)

lemma host_scheme_protocol:
  assumes "protocol req = None" and "alias_host req = Some h" and "sublist ''://'' h"
  shows "resolve_protocol req = split_first ''://'' h @ ''://''"
proof -
  have "h \<noteq> []"
    using assms(3) by auto
  moreover have "py_in ''://'' h"
    using assms(3) by (simp add: py_in_sublist)
  ultimately have "default_protocol req = split_first ''://'' h"
    using assms(2) by (simp add: default_protocol_def str_truthy_def)
  moreover have "\<not> endswith (split_first ''://'' h) ''://''"
    by (rule split_first_not_endswith) simp
  ultimately show ?thesis
    using assms(1) by (simp add: resolve_protocol_def with_separator_def)
qed

lemma no_scheme_protocol:
  assumes "protocol req = None" and "\<not> (\<exists>h. alias_host req = Some h \<and> sublist ''://'' h)"
  shows "resolve_protocol req =
           (if security req \<noteq> None then ''tls://''
            else if \<not> processes req \<and> scheduler_port req = 0 then ''inproc://''
            else ''tcp://'')"
proof -
  have "\<not> (str_truthy (alias_host req)
            \<and> py_in ''://'' (case alias_host req of Some h \<Rightarrow> h | None \<Rightarrow> []))"
    using assms(2) by (cases "alias_host req") (auto simp: py_in_sublist str_truthy_def)
  then have "default_protocol req =
           (if security req \<noteq> None then ''tls://''
            else if \<not> processes req \<and> scheduler_port req = 0 then ''inproc://''
            else ''tcp://'')"
    by (auto simp: default_protocol_def Let_def)
  then show ?thesis
    using assms(1) by (simp add: resolve_protocol_def with_separator_fixed)
qed

lemma resolve_protocol_endswith: "endswith (resolve_protocol req) ''://''"
  by (simp add: resolve_protocol_def with_separator_endswith)

text \<open>
  Claim C4. With no explicit protocol argument, a scheme embedded in the host string
  (the host after the \<open>ip\<close> alias, containing \<open>://\<close>) is the protocol; otherwise a
  security context gives \<open>tls://\<close>; otherwise threads-only mode with scheduler port 0
  gives \<open>inproc://\<close>; otherwise the protocol is \<open>tcp://\<close>. In every case the resolved
  protocol ends with \<open>://\<close>.
\<close>

theorem protocol_precedence:
  assumes "protocol req = None"
  shows "(\<forall>h. alias_host req = Some h \<and> sublist ''://'' h \<longrightarrow>
            (\<exists>scheme rest. h = scheme @ ''://'' @ rest \<and> \<not> sublist ''://'' scheme
               \<and> resolve_protocol req = scheme @ ''://''))
       \<and> (\<not> (\<exists>h. alias_host req = Some h \<and> sublist ''://'' h) \<longrightarrow>
            (security req \<noteq> None \<longrightarrow> resolve_protocol req = ''tls://'')
          \<and> (security req = None \<and> \<not> processes req \<and> scheduler_port req = 0 \<longrightarrow>
                resolve_protocol req = ''inproc://'')
          \<and> (security req = None \<and> (processes req \<or> scheduler_port req \<noteq> 0) \<longrightarrow>
                resolve_protocol req = ''tcp://''))
       \<and> endswith (resolve_protocol req) ''://''"
proof (intro conjI allI impI)
  fix h
  assume h: "alias_host req = Some h \<and> sublist ''://'' h"
  then have "py_in ''://'' h"
    by (simp add: py_in_sublist)
  then obtain rest where "h = split_first ''://'' h @ ''://'' @ rest"
    using split_first_decomp by blast
  moreover have "\<not> sublist ''://'' (split_first ''://'' h)"
    using split_first_no_sep [of "''://''" h] by (simp add: py_in_sublist)
  moreover have "resolve_protocol req = split_first ''://'' h @ ''://''"
    using assms h by (intro host_scheme_protocol) auto
  ultimately show "\<exists>scheme rest. h = scheme @ ''://'' @ rest \<and> \<not> sublist ''://'' scheme
               \<and> resolve_protocol req = scheme @ ''://''"
    by blast
next
  assume "\<not> (\<exists>h. alias_host req = Some h \<and> sublist ''://'' h)" and "security req \<noteq> None"
  then show "resolve_protocol req = ''tls://''"
    using no_scheme_protocol [OF assms] by simp
next
  assume "\<not> (\<exists>h. alias_host req = Some h \<and> sublist ''://'' h)"
    and "security req = None \<and> \<not> processes req \<and> scheduler_port req = 0"
  then show "resolve_protocol req = ''inproc://''"
    using no_scheme_protocol [OF assms] by simp
next
  assume "\<not> (\<exists>h. alias_host req = Some h \<and> sublist ''://'' h)"
    and "security req = None \<and> (processes req \<or> scheduler_port req \<noteq> 0)"
  then show "resolve_protocol req = ''tcp://''"
    using no_scheme_protocol [OF assms] by auto
next
  show "endswith (resolve_protocol req) ''://''"
    by (rule resolve_protocol_endswith)
qed

theorem protocol_precedence_witness:
  "protocol ((default_request :: unit request)\<lparr>processes := False\<rparr>) = None
     \<and> resolve_protocol ((default_request :: unit request)\<lparr>processes := False\<rparr>) = ''inproc://''
     \<and> endswith (resolve_protocol ((default_request :: unit request)\<lparr>processes := False\<rparr>)) ''://''"
  using protocol_precedence [of "(default_request :: unit request)\<lparr>processes := False\<rparr>"]
  by (simp add: default_request_def alias_host_def resolve_protocol_def default_protocol_def
        with_separator_def endswith_def str_truthy_def suffix_to_prefix)

lemma init_result:
  assumes "LocalCluster_init n pml req st = Inr (c, st')"
  shows "scheduler c = scheduler_spec req" and "st' = st"
  using assms
  by (auto simp: LocalCluster_init_def Let_def split: sum.splits prod.splits)

lemma scheduler_spec_host:
  "map_of (options (scheduler_spec req)) ''host'' = Some (of_str (resolve_host req))"
  by (simp add: scheduler_spec_def)

lemma scheduler_spec_protocol:
  "map_of (options (scheduler_spec req)) ''protocol'' = Some (PStr (resolve_protocol req))"
  by (simp add: scheduler_spec_def)

lemma resolve_host_given: "alias_host req = Some h \<Longrightarrow> resolve_host req = Some h"
  by (simp add: resolve_host_def)

text \<open>
  Claim C3, as stated: for \<open>host = "tls://foo"\<close> and no protocol argument the resolved
  protocol is \<open>tls://\<close> and the resolved host is \<open>foo\<close>. The constructor assigns to
  \<open>host\<close> only when it is \<open>None\<close>, so the scheme stays in the host.
\<close>

theorem host_scheme_stripped_counterexample:
  "\<not> (resolve_protocol ((default_request :: unit request)\<lparr>host := Some ''tls://foo''\<rparr>) = ''tls://''
      \<and> resolve_host ((default_request :: unit request)\<lparr>host := Some ''tls://foo''\<rparr>) = Some ''foo'')"
  by (simp add: resolve_host_def alias_host_def default_request_def)

text \<open>
  Claim C3, amended: for \<open>host = "tls://foo"\<close>, no \<open>ip\<close> and no protocol argument, the
  resolved protocol is \<open>tls://\<close> and the host is handed to the scheduler unchanged, as
  \<open>tls://foo\<close>.
\<close>

theorem host_scheme_kept:
  assumes "protocol req = None" and "ip req = None" and "host req = Some ''tls://foo''"
  shows "resolve_protocol req = ''tls://''
       \<and> resolve_host req = Some ''tls://foo''
       \<and> (\<forall>c st'. LocalCluster_init n pml req st = Inr (c, st') \<longrightarrow>
             map_of (options (scheduler c)) ''protocol'' = Some (PStr ''tls://'')
           \<and> map_of (options (scheduler c)) ''host'' = Some (PStr ''tls://foo''))"
proof -
  have ah: "alias_host req = Some ''tls://foo''"
    using assms(2,3) by (simp add: alias_host_def)
  have "default_protocol req = ''tls''"
    by (simp add: default_protocol_def ah str_truthy_def)
  then have p: "resolve_protocol req = ''tls://''"
    using assms(1)
    by (simp add: resolve_protocol_def with_separator_def endswith_def suffix_to_prefix)
  have h: "resolve_host req = Some ''tls://foo''"
    using ah by (rule resolve_host_given)
  show ?thesis
    using p h
    by (auto dest!: init_result(1) simp: scheduler_spec_host scheduler_spec_protocol of_str_def)
qed

theorem host_scheme_kept_witness:
  "protocol ((default_request :: unit request)\<lparr>host := Some ''tls://foo''\<rparr>) = None
     \<and> ip ((default_request :: unit request)\<lparr>host := Some ''tls://foo''\<rparr>) = None
     \<and> host ((default_request :: unit request)\<lparr>host := Some ''tls://foo''\<rparr>) = Some ''tls://foo''
     \<and> resolve_protocol ((default_request :: unit request)\<lparr>host := Some ''tls://foo''\<rparr>) = ''tls://''
     \<and> resolve_host ((default_request :: unit request)\<lparr>host := Some ''tls://foo''\<rparr>) = Some ''tls://foo''"
  using host_scheme_kept [of "(default_request :: unit request)\<lparr>host := Some ''tls://foo''\<rparr>"]
  by (simp add: default_request_def)

text \<open>
  Claim C8. When the host is unset after the \<open>ip\<close> alias, no interface is requested
  and the resolved protocol is not an \<open>inproc\<close> one (the code's test is that it starts
  with \<open>inproc\<close>), the host becomes the loopback address \<open>127.0.0.1\<close>. When the
  protocol is \<open>inproc\<close> or an interface is given, the host stays unset. A host that was
  given is kept, so the only address the constructor ever fills in is the loopback
  address, and the resolved host is the one the scheduler options carry.
\<close>

theorem host_default_loopback:
  "(alias_host req = None \<and> \<not> str_truthy (interface req)
      \<and> \<not> startswith (resolve_protocol req) ''inproc'' \<longrightarrow>
        resolve_host req = Some ''127.0.0.1'')
   \<and> (alias_host req = None
      \<and> (startswith (resolve_protocol req) ''inproc'' \<or> str_truthy (interface req)) \<longrightarrow>
        resolve_host req = None)
   \<and> (alias_host req \<noteq> None \<longrightarrow> resolve_host req = alias_host req)
   \<and> (resolve_host req = alias_host req \<or> resolve_host req = Some ''127.0.0.1'')
   \<and> (\<forall>c st'. LocalCluster_init n pml req st = Inr (c, st') \<longrightarrow>
         map_of (options (scheduler c)) ''host'' = Some (of_str (resolve_host req)))"
  by (auto dest!: init_result(1) simp: resolve_host_def Let_def scheduler_spec_host)

theorem host_default_loopback_witness:
  "resolve_host (default_request :: unit request) = Some ''127.0.0.1''
   \<and> resolve_host ((default_request :: unit request)\<lparr>processes := False\<rparr>) = None
   \<and> resolve_host ((default_request :: unit request)\<lparr>interface := Some ''eth0''\<rparr>) = None"
  using host_default_loopback [of "default_request :: unit request"]
    host_default_loopback [of "(default_request :: unit request)\<lparr>processes := False\<rparr>"]
    host_default_loopback [of "(default_request :: unit request)\<lparr>interface := Some ''eth0''\<rparr>"]
  by (simp add: default_request_def resolve_host_def alias_host_def resolve_protocol_def
        default_protocol_def with_separator_def endswith_def startswith_def str_truthy_def
        suffix_to_prefix)

lemma alias_host_ip: "ip req = Some i \<Longrightarrow> alias_host (req\<lparr>host := h\<rparr>) = alias_host req"
  by (simp add: alias_host_def)

text \<open>
  Claim C10. When the deprecated \<open>ip\<close> argument is supplied it replaces the host,
  whatever host the caller also passed: protocol, host and the whole construction are
  the same for every value of the \<open>host\<close> argument, the resolved host is the \<open>ip\<close>
  value, and the protocol is resolved as if that value had been passed as \<open>host\<close>.
\<close>

theorem ip_replaces_host:
  assumes "ip req = Some i"
  shows "alias_host req = Some i
       \<and> resolve_host req = Some i
       \<and> resolve_protocol req = resolve_protocol (req\<lparr>ip := None, host := Some i\<rparr>)
       \<and> (\<forall>h. resolve_protocol (req\<lparr>host := h\<rparr>) = resolve_protocol req
              \<and> resolve_host (req\<lparr>host := h\<rparr>) = Some i
              \<and> LocalCluster_init n pml (req\<lparr>host := h\<rparr>) st = LocalCluster_init n pml req st)"
proof -
  have a: "alias_host req = Some i"
    using assms by (simp add: alias_host_def)
  have a': "alias_host (req\<lparr>ip := None, host := Some i\<rparr>) = Some i"
    by (simp add: alias_host_def)
  have "default_protocol (req\<lparr>host := h\<rparr>) = default_protocol req" for h
    by (auto simp: default_protocol_def alias_host_ip [OF assms] Let_def)
  then have p: "resolve_protocol (req\<lparr>host := h\<rparr>) = resolve_protocol req" for h
    by (simp add: resolve_protocol_def split: option.splits)
  have hh: "resolve_host (req\<lparr>host := h\<rparr>) = resolve_host req" for h
    using assms by (simp add: resolve_host_def p alias_host_def)
  have s: "scheduler_spec (req\<lparr>host := h\<rparr>) = scheduler_spec req" for h
    by (simp add: scheduler_spec_def p hh alias_dashboard_address_def)
  have w: "worker_spec pml (req\<lparr>host := h\<rparr>) nw tpw = worker_spec pml req nw tpw" for h nw tpw
    by (simp add: worker_spec_def worker_options_def worker_cls_def p)
  have c: "resolve_counts n (req\<lparr>host := h\<rparr>) = resolve_counts n req" for h
    by (simp add: resolve_counts_def)
  have i: "LocalCluster_init n pml (req\<lparr>host := h\<rparr>) st = LocalCluster_init n pml req st" for h
    by (simp add: LocalCluster_init_def s w c Let_def split: sum.splits prod.splits)
  have "default_protocol req = default_protocol (req\<lparr>ip := None, host := Some i\<rparr>)"
    by (auto simp: default_protocol_def a a' Let_def)
  then have "resolve_protocol req = resolve_protocol (req\<lparr>ip := None, host := Some i\<rparr>)"
    by (simp add: resolve_protocol_def split: option.splits)
  then show ?thesis
    using a p hh i by (simp add: resolve_host_given)
qed

theorem ip_replaces_host_witness:
  "ip ((default_request :: unit request)\<lparr>host := Some ''a'', ip := Some ''tls://b''\<rparr>) = Some ''tls://b''
   \<and> resolve_host ((default_request :: unit request)\<lparr>host := Some ''a'', ip := Some ''tls://b''\<rparr>) = Some ''tls://b''
   \<and> resolve_protocol ((default_request :: unit request)\<lparr>host := Some ''a'', ip := Some ''tls://b''\<rparr>) = ''tls://''"
  using ip_replaces_host [of "(default_request :: unit request)\<lparr>host := Some ''a'', ip := Some ''tls://b''\<rparr>" "''tls://b''"]
  by (simp add: default_request_def resolve_host_def alias_host_def resolve_protocol_def
        default_protocol_def with_separator_def endswith_def startswith_def str_truthy_def
        suffix_to_prefix)

section \<open>Worker and thread counts\<close>

lemma nprocesses_nthreads_total:
  assumes "1 \<le> n"
  shows "\<exists>p t. nprocesses_nthreads n = Inr (p, t)"
proof (cases "n \<le> 4")
  case True
  with assms have "nprocesses_nthreads n = Inr (n, 1)"
    by (intro nprocesses_nthreads_small) auto
  then show ?thesis by blast
next
  case False
  then have "4 < n" by simp
  then show ?thesis
    using nprocesses_nthreads_large by blast
qed

lemma py_ceil_div_ceiling: "py_ceil_div a b = \<lceil>real_of_int a / real_of_int b\<rceil>"
  by (simp add: py_ceil_div_def ceiling_divide_eq_div)

lemma py_ceil_div_covers:
  assumes "0 < b"
  shows "a \<le> b * py_ceil_div a b"
proof -
  have "b * ((- a) div b) + (- a) mod b = - a"
    by (rule mult_div_mod_eq)
  moreover have "0 \<le> (- a) mod b"
    using assms by simp
  ultimately have "b * ((- a) div b) \<le> - a"
    by linarith
  then show ?thesis
    by (simp add: py_ceil_div_def)
qed

lemma py_ceil_div_pos:
  assumes "0 < b" and "0 < a"
  shows "1 \<le> py_ceil_div a b"
proof -
  have "0 < b * py_ceil_div a b"
    using py_ceil_div_covers [OF assms(1), of a] assms(2) by linarith
  then have "0 < py_ceil_div a b"
    using assms(1) by (simp add: zero_less_mult_iff)
  then show ?thesis by simp
qed

lemma counts_default_processes:
  assumes "n_workers req = None" and "threads_per_worker req = None" and "processes req"
    and "nprocesses_nthreads ncores = Inr (p, t)"
  shows "resolve_counts ncores req = Inr (Some p, Some t)"
  using assms by (simp add: resolve_counts_def)

lemma counts_default_threads:
  assumes "n_workers req = None" and "threads_per_worker req = None" and "\<not> processes req"
  shows "resolve_counts ncores req = Inr (Some 1, Some ncores)"
  using assms by (simp add: resolve_counts_def)

lemma counts_threads_given:
  assumes "n_workers req = None" and "threads_per_worker req = Some t" and "t \<noteq> 0"
  shows "resolve_counts ncores req = Inr (Some (max 1 (ncores div t)), Some t)"
  using assms by (simp add: resolve_counts_def py_floordiv_def)

lemma counts_workers_given:
  assumes "n_workers req = Some n" and "threads_per_worker req = None" and "n \<noteq> 0"
  shows "resolve_counts ncores req = Inr (Some n, Some (max 1 (py_ceil_div ncores n)))"
  using assms by (simp add: resolve_counts_def)

lemma counts_both_given:
  assumes "n_workers req = Some n" and "threads_per_worker req = Some t"
  shows "resolve_counts ncores req = Inr (Some n, Some t)"
  using assms by (simp add: resolve_counts_def)

lemma counts_zero_workers:
  assumes "n_workers req = Some 0" and "threads_per_worker req = None"
  shows "resolve_counts ncores req = Inr (Some 0, None)"
  using assms by (simp add: resolve_counts_def)

section \<open>Worker specifications\<close>

lemma py_range_set: "set (py_range n) = {0..n - 1}"
  by (simp add: py_range_def)

lemma worker_slots_keys:
  "worker_slots (Some n) w = Inr ws \<Longrightarrow> map fst ws = py_range n"
  by (auto simp: worker_slots_def comp_def)

lemma worker_slots_lookup:
  assumes "worker_slots (Some n) w = Inr ws"
  shows "map_of ws i = (if i \<in> {0..n - 1} then Some w else None)"
proof -
  have ws: "ws = map (\<lambda>i. (i, w)) (py_range n)"
    using assms by (simp add: worker_slots_def)
  show ?thesis
    unfolding ws by (simp add: map_of_map_restrict restrict_map_def py_range_set)
qed

lemma resolve_counts_workers_set:
  assumes "resolve_counts ncores req = Inr (nw, tpw)"
  shows "\<exists>n. nw = Some n"
  using assms
  by (auto simp: resolve_counts_def split: if_splits sum.splits prod.splits option.splits)

lemma resolve_counts_total:
  assumes "1 \<le> ncores" and "\<not> (n_workers req = None \<and> threads_per_worker req = Some 0)"
  shows "\<exists>n tpw. resolve_counts ncores req = Inr (Some n, tpw)"
proof (cases "n_workers req")
  case None
  note nw = this
  show ?thesis
  proof (cases "threads_per_worker req")
    case None
    show ?thesis
    proof (cases "processes req")
      case True
      obtain p t where "nprocesses_nthreads ncores = Inr (p, t)"
        using nprocesses_nthreads_total [OF assms(1)] by blast
      with nw None True show ?thesis
        using counts_default_processes by blast
    next
      case False
      with nw None show ?thesis
        using counts_default_threads by blast
    qed
  next
    case (Some t)
    with nw assms(2) have "t \<noteq> 0" by auto
    with nw Some show ?thesis
      using counts_threads_given by blast
  qed
next
  case (Some n)
  show ?thesis
  proof (cases "threads_per_worker req")
    case None
    with Some show ?thesis
      using counts_workers_given [of req n ncores] counts_zero_workers [of req ncores]
      by (cases "n = 0") auto
  next
    case (Some t)
    with \<open>n_workers req = Some n\<close> show ?thesis
      using counts_both_given by blast
  qed
qed

lemma init_success:
  assumes "resolve_counts ncores req = Inr (Some n, tpw)"
  shows "LocalCluster_init ncores pml req st =
           Inr (\<lparr>status = PNone, cluster_processes = processes req,
                 scheduler = scheduler_spec req,
                 workers = map (\<lambda>i. (i, worker_spec pml req (Some n) tpw)) (py_range n),
                 worker = worker_spec pml req (Some n) tpw,
                 cluster_loop = loop req, cluster_asynchronous = asynchronous req,
                 cluster_silence_logs = silence_logs req, scaled_to = n\<rparr>, st)"
  using assms by (simp add: LocalCluster_init_def worker_slots_def Let_def)

text \<open>
  Claim C7. Whenever the counts resolve (at least one core, and not a thread count of
  0 with no worker count), the construction succeeds and the worker map has exactly
  the keys \<open>0, \<dots>, n - 1\<close> for the resolved worker count \<open>n\<close>, every key mapped to the
  one worker specification. Its class is the caller's \<open>worker_class\<close> when one is
  given; otherwise it is \<open>Nanny\<close> exactly when process mode is enabled.
\<close>

theorem worker_slots_homogeneous:
  assumes "1 \<le> ncores" and "\<not> (n_workers req = None \<and> threads_per_worker req = Some 0)"
  shows "\<exists>n tpw c. resolve_counts ncores req = Inr (Some n, tpw)
           \<and> LocalCluster_init ncores pml req st = Inr (c, st)
           \<and> map fst (workers c) = [0..n - 1]
           \<and> dom (map_of (workers c)) = {0..n - 1}
           \<and> (\<forall>i \<in> {0..n - 1}. map_of (workers c) i = Some (worker c))
           \<and> (\<forall>k. worker_class req = Some k \<longrightarrow> cls (worker c) = k)
           \<and> (worker_class req = None \<longrightarrow> (cls (worker c) = Nanny \<longleftrightarrow> processes req))"
proof -
  obtain n tpw where rc: "resolve_counts ncores req = Inr (Some n, tpw)"
    using resolve_counts_total [OF assms] by blast
  define w where "w = worker_spec pml req (Some n) tpw"
  define c where "c = \<lparr>status = PNone, cluster_processes = processes req,
                 scheduler = scheduler_spec req,
                 workers = map (\<lambda>i. (i, w)) (py_range n), worker = w,
                 cluster_loop = loop req, cluster_asynchronous = asynchronous req,
                 cluster_silence_logs = silence_logs req, scaled_to = n\<rparr>"
  have init: "LocalCluster_init ncores pml req st = Inr (c, st)"
    using init_success [OF rc] by (simp add: c_def w_def)
  have sel: "workers c = map (\<lambda>i. (i, w)) (py_range n)" "worker c = w"
    by (simp_all add: c_def)
  have slots: "worker_slots (Some n) w = Inr (workers c)"
    by (simp add: worker_slots_def sel)
  have keys: "map fst (workers c) = [0..n - 1]"
    using worker_slots_keys [OF slots] by (simp add: py_range_def)
  have look: "map_of (workers c) i = (if i \<in> {0..n - 1} then Some w else None)" for i
    by (rule worker_slots_lookup [OF slots])
  have dom: "dom (map_of (workers c)) = {0..n - 1}"
    using look by (auto simp: dom_def)
  have all: "\<forall>i \<in> {0..n - 1}. map_of (workers c) i = Some (worker c)"
    using look by (simp add: sel)
  have k1: "\<forall>k. worker_class req = Some k \<longrightarrow> cls (worker c) = k"
    by (simp add: sel w_def worker_spec_def worker_cls_def)
  have k2: "worker_class req = None \<longrightarrow> (cls (worker c) = Nanny \<longleftrightarrow> processes req)"
    by (simp add: sel w_def worker_spec_def worker_cls_def)
  show ?thesis
    by (rule exI [of _ n], rule exI [of _ tpw], rule exI [of _ c])
       (intro conjI rc init keys dom all k1 k2)
qed


theorem worker_slots_homogeneous_witness:
  "(1::int) \<le> 8
   \<and> \<not> (n_workers ((default_request :: unit request)\<lparr>n_workers := Some 3\<rparr>) = None
        \<and> threads_per_worker ((default_request :: unit request)\<lparr>n_workers := Some 3\<rparr>) = Some 0)
   \<and> map_sum id (\<lambda>r. (map fst (workers (fst r)), cls (worker (fst r))))
        (LocalCluster_init 8 (\<lambda>limit nc total. 0)
           ((default_request :: unit request)\<lparr>n_workers := Some 3\<rparr>) \<lparr>clusters_to_close = []\<rparr>)
      = Inr ([0, 1, 2], Nanny)"
  using worker_slots_homogeneous [of 8 "(default_request :: unit request)\<lparr>n_workers := Some 3\<rparr>"
      "\<lambda>limit nc total. 0" "\<lparr>clusters_to_close = []\<rparr>"]
  by (simp add: default_request_def LocalCluster_init_def resolve_counts_def py_ceil_div_def
        worker_slots_def py_range_def worker_spec_def worker_cls_def Let_def upto.simps)

subsection \<open>The counts the construction uses\<close>

lemma worker_options_ncores:
  "map_of (worker_options req tpw kwargs) ''ncores'' = Some (of_int_opt tpw)"
  by (simp add: worker_options_def dict_update_def update_conv')

lemma init_counts:
  assumes "resolve_counts ncores req = Inr (Some n, tpw)"
  shows "\<exists>c. LocalCluster_init ncores pml req st = Inr (c, st) \<and> scaled_to c = n
           \<and> length (workers c) = nat n
           \<and> map_of (options (worker c)) ''ncores'' = Some (of_int_opt tpw)"
  using init_success [OF assms, of pml st]
  by (simp add: worker_spec_def worker_options_ncores py_range_def)

text \<open>
  Claim C5. On a machine with at least one core and fewer than \<open>2^52\<close> cores (the
  range in which the floating-point division of line 166 is exact): with neither count
  given, the
  partitioner's pair is used in process mode and \<open>(1, ncores)\<close> in threads-only mode;
  with only the thread count \<open>t\<close> given, the worker count is \<open>max 1 (ncores div t)\<close>;
  with only a worker count \<open>n \<ge> 1\<close> given, the thread count is the ceiling of
  \<open>ncores / n\<close>, so that \<open>n\<close> workers cover all cores. Three workers on eight cores get
  three threads each. The resolved counts are the ones the construction uses: the
  worker count is the scaling target and the number of worker slots, the thread count
  is the \<open>ncores\<close> option of the worker specification.
\<close>

theorem count_resolution:
  assumes "1 \<le> ncores" and "ncores < 2 ^ 52"
  shows "(n_workers req = None \<and> threads_per_worker req = None \<and> processes req \<longrightarrow>
            (\<exists>p t. nprocesses_nthreads ncores = Inr (p, t)
               \<and> resolve_counts ncores req = Inr (Some p, Some t)))
       \<and> (n_workers req = None \<and> threads_per_worker req = None \<and> \<not> processes req \<longrightarrow>
            resolve_counts ncores req = Inr (Some 1, Some ncores))
       \<and> (\<forall>t. n_workers req = None \<and> threads_per_worker req = Some t \<and> t \<noteq> 0 \<longrightarrow>
            resolve_counts ncores req = Inr (Some (max 1 (ncores div t)), Some t))
       \<and> (\<forall>n. n_workers req = Some n \<and> threads_per_worker req = None \<and> 1 \<le> n \<longrightarrow>
            resolve_counts ncores req
              = Inr (Some n, Some \<lceil>real_of_int ncores / real_of_int n\<rceil>)
          \<and> ncores \<le> n * \<lceil>real_of_int ncores / real_of_int n\<rceil>)
       \<and> (ncores = 8 \<and> n_workers req = Some 3 \<and> threads_per_worker req = None \<longrightarrow>
            resolve_counts ncores req = Inr (Some 3, Some 3))
       \<and> (\<forall>n tpw. resolve_counts ncores req = Inr (Some n, tpw) \<longrightarrow>
            (\<exists>c. LocalCluster_init ncores pml req st = Inr (c, st) \<and> scaled_to c = n
               \<and> length (workers c) = nat n
               \<and> map_of (options (worker c)) ''ncores'' = Some (of_int_opt tpw)))"
proof (intro conjI allI impI)
  assume a: "n_workers req = None \<and> threads_per_worker req = None \<and> processes req"
  obtain p t where pt: "nprocesses_nthreads ncores = Inr (p, t)"
    using nprocesses_nthreads_total [OF assms(1)] by blast
  with a have "resolve_counts ncores req = Inr (Some p, Some t)"
    by (intro counts_default_processes) auto
  with pt show "\<exists>p t. nprocesses_nthreads ncores = Inr (p, t)
               \<and> resolve_counts ncores req = Inr (Some p, Some t)"
    by blast
next
  assume "n_workers req = None \<and> threads_per_worker req = None \<and> \<not> processes req"
  then show "resolve_counts ncores req = Inr (Some 1, Some ncores)"
    by (intro counts_default_threads) auto
next
  fix t
  assume "n_workers req = None \<and> threads_per_worker req = Some t \<and> t \<noteq> 0"
  then show "resolve_counts ncores req = Inr (Some (max 1 (ncores div t)), Some t)"
    by (intro counts_threads_given) auto
next
  fix n
  assume a: "n_workers req = Some n \<and> threads_per_worker req = None \<and> 1 \<le> n"
  then have "1 \<le> py_ceil_div ncores n"
    using assms(1) by (intro py_ceil_div_pos) auto
  then have "max 1 (py_ceil_div ncores n) = \<lceil>real_of_int ncores / real_of_int n\<rceil>"
    by (simp add: py_ceil_div_ceiling)
  moreover have "resolve_counts ncores req = Inr (Some n, Some (max 1 (py_ceil_div ncores n)))"
    using a by (intro counts_workers_given) auto
  ultimately show "resolve_counts ncores req
              = Inr (Some n, Some \<lceil>real_of_int ncores / real_of_int n\<rceil>)"
    by simp
  have "ncores \<le> n * py_ceil_div ncores n"
    using a by (intro py_ceil_div_covers) auto
  then show "ncores \<le> n * \<lceil>real_of_int ncores / real_of_int n\<rceil>"
    by (simp add: py_ceil_div_ceiling)
next
  assume a: "ncores = 8 \<and> n_workers req = Some 3 \<and> threads_per_worker req = None"
  then have "resolve_counts ncores req = Inr (Some 3, Some (max 1 (py_ceil_div ncores 3)))"
    by (intro counts_workers_given) auto
  moreover have "py_ceil_div 8 3 = 3"
    by (simp add: py_ceil_div_def)
  ultimately show "resolve_counts ncores req = Inr (Some 3, Some 3)"
    using a by simp
next
  fix n tpw
  assume "resolve_counts ncores req = Inr (Some n, tpw)"
  then show "\<exists>c. LocalCluster_init ncores pml req st = Inr (c, st) \<and> scaled_to c = n
               \<and> length (workers c) = nat n
               \<and> map_of (options (worker c)) ''ncores'' = Some (of_int_opt tpw)"
    by (rule init_counts)
qed

theorem count_resolution_witness:
  "(1::int) \<le> 8 \<and> (8::int) < 2 ^ 52
   \<and> resolve_counts 8 ((default_request :: unit request)\<lparr>n_workers := Some 3\<rparr>) = Inr (Some 3, Some 3)
   \<and> resolve_counts 8 ((default_request :: unit request)\<lparr>threads_per_worker := Some 3\<rparr>) = Inr (Some 2, Some 3)
   \<and> resolve_counts 8 ((default_request :: unit request)\<lparr>processes := False\<rparr>) = Inr (Some 1, Some 8)"
  using count_resolution [of 8 "(default_request :: unit request)\<lparr>n_workers := Some 3\<rparr>"]
    count_resolution [of 8 "(default_request :: unit request)\<lparr>threads_per_worker := Some 3\<rparr>"]
    count_resolution [of 8 "(default_request :: unit request)\<lparr>processes := False\<rparr>"]
  by (simp add: default_request_def)

section \<open>The registry and the exit hook\<close>

lemma close_each_attempted:
  "fst (close_each close cs) =
     takeWhile (\<lambda>c. close c 10 = None) cs @ take 1 (dropWhile (\<lambda>c. close c 10 = None) cs)"
  by (induction cs) (auto split: option.splits prod.splits)

lemma close_each_raised:
  "snd (close_each close cs) =
     (case dropWhile (\<lambda>c. close c 10 = None) cs of [] \<Rightarrow> None | c # rest \<Rightarrow> close c 10)"
  by (induction cs) (auto split: option.splits prod.splits)

lemma close_each_all_ok:
  "\<forall>c \<in> set cs. close c 10 = None \<Longrightarrow> close_each close cs = (cs, None)"
  by (induction cs) auto

lemma close_each_some_fails:
  "\<exists>c \<in> set cs. close c 10 \<noteq> None \<Longrightarrow> snd (close_each close cs) \<noteq> None"
proof (induction cs)
  case Nil
  then show ?case by simp
next
  case (Cons a cs)
  show ?case
  proof (cases "close a 10")
    case None
    with Cons.prems have "\<exists>c \<in> set cs. close c 10 \<noteq> None"
      by auto
    then have "snd (close_each close cs) \<noteq> None"
      by (rule Cons.IH)
    with None show ?thesis
      by (cases "close_each close cs") simp
  next
    case (Some e)
    then show ?thesis by simp
  qed
qed

text \<open>
  Claim C2, as stated: the drain attempts to close all \<open>N\<close> registered handles even
  when the close of one of them raises, and no failure leaves the drain. With three
  handles of which the first raises, one close is attempted and the exception leaves
  \<open>close_clusters\<close>.
\<close>

theorem drain_isolation_counterexample:
  "\<not> (length (fst (close_clusters (close_raising_at 0) \<lparr>clusters_to_close = [0, 1, 2]\<rparr>))
          = length [0 :: nat, 1, 2]
      \<and> snd (close_clusters (close_raising_at 0) \<lparr>clusters_to_close = [0, 1, 2]\<rparr>) = None)"
  by (simp add: close_clusters_def close_raising_at_def)

text \<open>
  Claim C2, amended: \<open>close_clusters\<close> calls \<open>close(timeout=10)\<close> on the handles of
  the snapshot in order. When no close raises, every handle is attempted once and
  nothing is raised. When a close raises, the handles attempted are those up to and
  including the first failing one, and its exception leaves \<open>close_clusters\<close>.
\<close>

theorem drain_stops_at_first_failure:
  "fst (close_clusters close st) =
     takeWhile (\<lambda>c. close c 10 = None) (clusters_to_close st)
       @ take 1 (dropWhile (\<lambda>c. close c 10 = None) (clusters_to_close st))
   \<and> snd (close_clusters close st) =
       (case dropWhile (\<lambda>c. close c 10 = None) (clusters_to_close st) of
          [] \<Rightarrow> None
        | c # rest \<Rightarrow> close c 10)
   \<and> ((\<forall>c \<in> set (clusters_to_close st). close c 10 = None) \<longrightarrow>
         close_clusters close st = (clusters_to_close st, None))
   \<and> ((\<exists>c \<in> set (clusters_to_close st). close c 10 \<noteq> None) \<longrightarrow>
         snd (close_clusters close st) \<noteq> None)"
  unfolding close_clusters_def
  using close_each_attempted [of close "clusters_to_close st"]
    close_each_raised [of close "clusters_to_close st"]
    close_each_all_ok [of "clusters_to_close st" close]
    close_each_some_fails [of "clusters_to_close st" close]
  by blast

theorem drain_stops_at_first_failure_witness:
  "close_clusters (close_raising_at 1) \<lparr>clusters_to_close = [0, 1, 2]\<rparr>
     = ([0, 1], Some ''close failed'')
   \<and> close_clusters (close_raising_at 7) \<lparr>clusters_to_close = [0, 1, 2]\<rparr>
     = ([0, 1, 2], None)"
  using drain_stops_at_first_failure [of "close_raising_at 1" "\<lparr>clusters_to_close = [0, 1, 2]\<rparr>"]
    drain_stops_at_first_failure [of "close_raising_at 7" "\<lparr>clusters_to_close = [0, 1, 2]\<rparr>"]
  by (simp add: close_clusters_def close_raising_at_def)

end
